theory Spec2Isabelle
  imports Main "HOL-Library.AList" "HOL-Library.Product_Lexorder" "HOL-Library.Multiset"
begin

section \<open>Python values, errors and the file system\<close>

text \<open>
  The script \<^verbatim>\<open>scripts/repair_base_snapshot.py\<close> works on documents produced by
  \<^verbatim>\<open>json.loads\<close>. A Python value of the script is therefore a JSON value; Python's
  \<^verbatim>\<open>None\<close> is \<open>JNull\<close>, a \<^verbatim>\<open>dict\<close> is an association list in insertion order.
  Numbers are restricted to integers.
\<close>

datatype json =
    JNull
  | JBool bool
  | JInt int
  | JStr string
  | JArr "json list"
  | JObj "(string \<times> json) list"

text \<open>The exceptions the script can meet. Every raise is a value \<open>Inl e\<close>.\<close>

datatype py_error =
    FileNotFoundError
  | IsADirectoryError
  | NotADirectoryError
  | FileExistsError
  | JSONDecodeError
  | AttributeError
  | TypeError

type_synonym 'a result = "py_error + 'a"

definition bindE :: "'a result \<Rightarrow> ('a \<Rightarrow> 'b result) \<Rightarrow> 'b result" where
  "bindE m f = (case m of Inl e \<Rightarrow> Inl e | Inr x \<Rightarrow> f x)"

text \<open>Python truthiness (\<^verbatim>\<open>if x:\<close>, \<^verbatim>\<open>not x\<close>).\<close>

fun truthy :: "json \<Rightarrow> bool" where
  "truthy JNull = False"
| "truthy (JBool b) = b"
| "truthy (JInt n) = (n \<noteq> 0)"
| "truthy (JStr s) = (s \<noteq> [])"
| "truthy (JArr xs) = (xs \<noteq> [])"
| "truthy (JObj kvs) = (kvs \<noteq> [])"

text \<open>\<^verbatim>\<open>d.get(k, default)\<close>: only a dict has the method.\<close>

fun py_get_default :: "json \<Rightarrow> string \<Rightarrow> json \<Rightarrow> json result" where
  "py_get_default (JObj kvs) k d = Inr (case map_of kvs k of None \<Rightarrow> d | Some v \<Rightarrow> v)"
| "py_get_default _ k d = Inl AttributeError"

definition py_get :: "json \<Rightarrow> string \<Rightarrow> json result" where
  "py_get j k = py_get_default j k JNull"

text \<open>\<^verbatim>\<open>d[k] = v\<close> with a string key: a dict stores it, every other JSON value raises TypeError.\<close>

fun py_setitem :: "json \<Rightarrow> string \<Rightarrow> json \<Rightarrow> json result" where
  "py_setitem (JObj kvs) k v = Inr (JObj (AList.update k v kvs))"
| "py_setitem _ k v = Inl TypeError"

text \<open>\<^verbatim>\<open>d.pop(k, None)\<close>.\<close>

fun py_pop :: "json \<Rightarrow> string \<Rightarrow> json result" where
  "py_pop (JObj kvs) k = Inr (JObj (AList.delete k kvs))"
| "py_pop (JArr xs) k = Inl TypeError"
| "py_pop _ k = Inl AttributeError"


text \<open>
  Dictionaries keyed by JSON values (\<^verbatim>\<open>ws_by_id\<close>, \<^verbatim>\<open>ws_by_project\<close>): lists and dicts are
  unhashable, and \<^verbatim>\<open>True == 1\<close>, \<^verbatim>\<open>False == 0\<close> as keys.
\<close>

fun hashable :: "json \<Rightarrow> bool" where
  "hashable (JArr _) = False"
| "hashable (JObj _) = False"
| "hashable _ = True"

fun key_norm :: "json \<Rightarrow> json" where
  "key_norm (JBool b) = JInt (if b then 1 else 0)"
| "key_norm j = j"

definition py_eq :: "json \<Rightarrow> json \<Rightarrow> bool" where
  "py_eq a b = (key_norm a = key_norm b)"

fun pydict_get :: "(json \<times> 'v) list \<Rightarrow> json \<Rightarrow> 'v option" where
  "pydict_get [] k = None"
| "pydict_get ((k', v) # d) k = (if py_eq k' k then Some v else pydict_get d k)"


subsection \<open>Paths\<close>

text \<open>
  A path is its list of components below the root. The working directory is the root, and
  there are no symbolic links and no \<^verbatim>\<open>..\<close> components, so that two different lists name
  two different files and \<^verbatim>\<open>Path.resolve\<close> changes nothing.
\<close>

type_synonym path = "string list"

fun split_slash :: "string \<Rightarrow> string list" where
  "split_slash [] = [[]]"
| "split_slash (c # cs) =
     (if c = CHR ''/'' then [] # split_slash cs
      else (case split_slash cs of [] \<Rightarrow> [[c]] | x # xs \<Rightarrow> (c # x) # xs))"

definition components :: "string \<Rightarrow> path" where
  "components s = filter (\<lambda>x. x \<noteq> [] \<and> x \<noteq> ''.'') (split_slash s)"

text \<open>\<^verbatim>\<open>Path(v)\<close>: only a string is accepted.\<close>

fun Path :: "json \<Rightarrow> path result" where
  "Path (JStr s) = Inr (components s)"
| "Path _ = Inl TypeError"

text \<open>\<^verbatim>\<open>p / name\<close>: an absolute right operand replaces the left one.\<close>

definition path_join :: "path \<Rightarrow> string \<Rightarrow> path" where
  "path_join p s = (if s \<noteq> [] \<and> hd s = CHR ''/'' then components s else p @ components s)"

definition resolve :: "path \<Rightarrow> path" where
  "resolve p = p"

definition parent :: "path \<Rightarrow> path" where
  "parent p = butlast p"

subsection \<open>The file system\<close>

text \<open>
  The text of a file is represented by what \<^verbatim>\<open>json.loads\<close> makes of it: \<open>Json j\<close> when it
  parses to \<open>j\<close>, \<open>Junk s\<close> when the text \<open>s\<close> does not parse. \<^verbatim>\<open>json.dumps\<close> of a value
  \<open>j\<close> is a text that parses to \<open>j\<close>. The entries are kept in the order in which the
  directory lists them; \<open>written\<close> logs every \<^verbatim>\<open>write_text\<close>.
\<close>

datatype content = Json json | Junk string

datatype node = Dir | File content

record fsys =
  entries :: "(path \<times> node) list"
  written :: "path list"

text \<open>The root is a directory.\<close>

definition lookup :: "fsys \<Rightarrow> path \<Rightarrow> node option" where
  "lookup fs p = (if p = [] then Some Dir else map_of (entries fs) p)"

fun is_file :: "node option \<Rightarrow> bool" where
  "is_file (Some (File _)) = True"
| "is_file _ = False"

text \<open>A proper prefix of the path is a regular file: the system call fails with ENOTDIR.\<close>

definition under_file :: "fsys \<Rightarrow> path \<Rightarrow> bool" where
  "under_file fs p = list_ex (\<lambda>n. is_file (lookup fs (take n p))) [0..<length p]"

definition path_exists :: "fsys \<Rightarrow> path \<Rightarrow> bool" where
  "path_exists fs p = (\<not> under_file fs p \<and> lookup fs p \<noteq> None)"

definition read_text :: "fsys \<Rightarrow> path \<Rightarrow> content result" where
  "read_text fs p =
     (if under_file fs p then Inl NotADirectoryError
      else case lookup fs p of
             None \<Rightarrow> Inl FileNotFoundError
           | Some Dir \<Rightarrow> Inl IsADirectoryError
           | Some (File t) \<Rightarrow> Inr t)"

definition write_text :: "fsys \<Rightarrow> path \<Rightarrow> content \<Rightarrow> fsys result" where
  "write_text fs p t =
     (if under_file fs p then Inl NotADirectoryError
      else case lookup fs p of
             Some Dir \<Rightarrow> Inl IsADirectoryError
           | Some (File _) \<Rightarrow>
               Inr (fs\<lparr>entries := AList.update p (File t) (entries fs), written := written fs @ [p]\<rparr>)
           | None \<Rightarrow>
               (if lookup fs (parent p) \<noteq> Some Dir then Inl FileNotFoundError
                else Inr (fs\<lparr>entries := AList.update p (File t) (entries fs),
                             written := written fs @ [p]\<rparr>)))"

text \<open>\<^verbatim>\<open>p.mkdir(parents=True, exist_ok=True)\<close>.\<close>

definition add_dir :: "fsys \<Rightarrow> path \<Rightarrow> fsys" where
  "add_dir fs p = (if lookup fs p = None then fs\<lparr>entries := AList.update p Dir (entries fs)\<rparr> else fs)"

definition make_dirs :: "fsys \<Rightarrow> path \<Rightarrow> fsys" where
  "make_dirs fs p = fold (\<lambda>n fs'. add_dir fs' (take n p)) [1..<Suc (length p)] fs"

definition mkdir_p :: "fsys \<Rightarrow> path \<Rightarrow> fsys result" where
  "mkdir_p fs p =
     (if under_file fs p then Inl NotADirectoryError
      else if is_file (lookup fs p) then Inl FileExistsError
      else Inr (make_dirs fs p))"

definition ends_with :: "string \<Rightarrow> string \<Rightarrow> bool" where
  "ends_with suf s = (length suf \<le> length s \<and> drop (length s - length suf) s = suf)"

text \<open>\<^verbatim>\<open>d.glob("*.meta.json")\<close>: the children of the directory whose name has the suffix.\<close>

definition glob_meta :: "fsys \<Rightarrow> path \<Rightarrow> path list" where
  "glob_meta fs d =
     (if lookup fs d = Some Dir
      then filter (\<lambda>p. p \<noteq> [] \<and> butlast p = d \<and> ends_with ''.meta.json'' (last p))
             (map fst (entries fs))
      else [])"

section \<open>Loading and saving documents\<close>

text \<open>\<^verbatim>\<open>load_json\<close> catches FileNotFoundError only.\<close>

definition load_json :: "fsys \<Rightarrow> path \<Rightarrow> json result" where
  "load_json fs p =
     (case read_text fs p of
        Inl FileNotFoundError \<Rightarrow> Inr JNull
      | Inl e \<Rightarrow> Inl e
      | Inr (Junk s) \<Rightarrow> Inl JSONDecodeError
      | Inr (Json j) \<Rightarrow> Inr j)"

definition save_json :: "fsys \<Rightarrow> path \<Rightarrow> json \<Rightarrow> fsys result" where
  "save_json fs p data = write_text fs p (Json data)"

text \<open>\<^verbatim>\<open>load_snapshot_meta\<close> catches every exception.\<close>

definition load_snapshot_meta :: "fsys \<Rightarrow> path \<Rightarrow> json" where
  "load_snapshot_meta fs p =
     (case read_text fs p of
        Inl e \<Rightarrow> JNull
      | Inr (Junk s) \<Rightarrow> JNull
      | Inr (Json j) \<Rightarrow> j)"

section \<open>Picking a snapshot\<close>

text \<open>
  A \<^verbatim>\<open>datetime\<close> is naive or aware; the number is its count of microseconds (for an aware
  one, of its UTC instant). Comparing a naive with an aware one with \<^verbatim>\<open><\<close> raises
  TypeError. \<^verbatim>\<open>datetime.fromisoformat\<close> and the text of a value that is not a string
  inside an f-string are the library's and are parameters of the model.
\<close>

datatype datetime = Naive int | Aware int

fun micros :: "datetime \<Rightarrow> int" where
  "micros (Naive n) = n"
| "micros (Aware n) = n"

fun is_aware :: "datetime \<Rightarrow> bool" where
  "is_aware (Naive _) = False"
| "is_aware (Aware _) = True"

definition datetime_max :: "datetime" where
  "datetime_max = Naive 315537897599999999"

record pylib =
  fromisoformat :: "string \<Rightarrow> datetime option"
  format_other :: "json \<Rightarrow> string"

definition replace_Z :: "string \<Rightarrow> string" where
  "replace_Z s = concat (map (\<lambda>c. if c = CHR ''Z'' then ''+00:00'' else [c]) s)"

text \<open>Lines 54 to 61: the timestamp of a record, \<open>None\<close> when unknown.\<close>

fun parse_created_at :: "pylib \<Rightarrow> json \<Rightarrow> datetime option" where
  "parse_created_at L (JStr s) = (if s = [] then None else fromisoformat L (replace_Z s))"
| "parse_created_at L _ = None"

text \<open>The loop of lines 50 to 62.\<close>

fun collect_metas :: "pylib \<Rightarrow> fsys \<Rightarrow> path list \<Rightarrow> (json \<times> datetime option) list result" where
  "collect_metas L fs [] = Inr []"
| "collect_metas L fs (meta_path # rest) =
     (let meta = load_snapshot_meta fs meta_path in
      if \<not> truthy meta then collect_metas L fs rest
      else bindE (py_get meta ''created_at'') (\<lambda>created_at.
           bindE (py_get meta ''id'') (\<lambda>sid.
           bindE (collect_metas L fs rest) (\<lambda>metas.
           Inr ((sid, parse_created_at L created_at) # metas)))))"

text \<open>
  \<^verbatim>\<open>metas.sort(key=lambda x: (x[1] is None, x[1] or datetime.max))\<close>: a stable sort on
  the key; the keys of two known timestamps are compared by the timestamps, which raises
  when one is naive and the other aware.
\<close>

definition sort_key_of :: "json \<times> datetime option \<Rightarrow> bool \<times> int" where
  "sort_key_of x = (snd x = None, micros (case snd x of None \<Rightarrow> datetime_max | Some t \<Rightarrow> t))"

definition comparable :: "(json \<times> datetime option) list \<Rightarrow> bool" where
  "comparable metas =
     (\<not> (list_ex (\<lambda>x. case snd x of Some t \<Rightarrow> is_aware t | None \<Rightarrow> False) metas
         \<and> list_ex (\<lambda>x. case snd x of Some t \<Rightarrow> \<not> is_aware t | None \<Rightarrow> False) metas))"

definition py_sort :: "(json \<times> datetime option) list \<Rightarrow> (json \<times> datetime option) list result" where
  "py_sort metas = (if comparable metas then Inr (sort_key sort_key_of metas) else Inl TypeError)"

definition candidates :: "(json \<times> datetime option) list \<Rightarrow> (json \<times> datetime option) list" where
  "candidates metas = filter (\<lambda>x. truthy (fst x)) metas"

definition pick_snapshot_id :: "pylib \<Rightarrow> fsys \<Rightarrow> path \<Rightarrow> string \<Rightarrow> json result" where
  "pick_snapshot_id L fs snapshots_dir prefer =
     (if \<not> path_exists fs snapshots_dir then Inr JNull
      else bindE (collect_metas L fs (glob_meta fs snapshots_dir)) (\<lambda>metas0.
           let metas = candidates metas0 in
           if metas = [] then Inr JNull
           else bindE (py_sort metas) (\<lambda>sorted.
                if prefer = ''latest'' then Inr (fst (last sorted))
                else Inr (fst (hd sorted)))))"

section \<open>Locating the project root\<close>

text \<open>\<^verbatim>\<open>find_parent_root\<close>: the loop climbs until the marker is found or the root is reached.\<close>

function find_parent_root_from :: "fsys \<Rightarrow> path \<Rightarrow> path option" where
  "find_parent_root_from fs cur =
     (if path_exists fs (cur @ [''fst.json'']) then Some cur
      else if parent cur = cur then None
      else find_parent_root_from fs (parent cur))"
  by pat_completeness auto
termination
proof (relation "measure (\<lambda>(fs, cur). length cur)")
  show "wf (measure (\<lambda>(fs :: fsys, cur :: path). length cur))"
    by simp
next
  fix fs :: fsys and cur :: path
  assume "parent cur \<noteq> cur"
  then have "cur \<noteq> []"
    by (auto simp: parent_def)
  then show "((fs, parent cur), (fs, cur)) \<in> measure (\<lambda>(fs, cur). length cur)"
    by (simp add: parent_def)
qed

definition find_parent_root :: "fsys \<Rightarrow> path \<Rightarrow> path option" where
  "find_parent_root fs start = find_parent_root_from fs (resolve start)"

section \<open>Replicating a base snapshot\<close>

definition fstr :: "pylib \<Rightarrow> json \<Rightarrow> string" where
  "fstr L v = (case v of JStr s \<Rightarrow> s | _ \<Rightarrow> format_other L v)"

text \<open>Lines 96 and 97, and lines 98 and 99: each write is guarded by \<^verbatim>\<open>exists()\<close>.\<close>

definition write_meta_if_absent :: "fsys \<Rightarrow> path \<Rightarrow> json \<Rightarrow> fsys result" where
  "write_meta_if_absent fs target_meta meta_data =
     (if \<not> path_exists fs target_meta then write_text fs target_meta (Json meta_data) else Inr fs)"

definition write_manifest_if_absent :: "fsys \<Rightarrow> path \<Rightarrow> path \<Rightarrow> fsys result" where
  "write_manifest_if_absent fs target_manifest manifest_path =
     (if \<not> path_exists fs target_manifest
      then bindE (read_text fs manifest_path) (write_text fs target_manifest)
      else Inr fs)"

definition copy_base_snapshot :: "pylib \<Rightarrow> fsys \<Rightarrow> path \<Rightarrow> path \<Rightarrow> json \<Rightarrow> (fsys \<times> bool) result" where
  "copy_base_snapshot L fs source_path target_path base_id =
     (let source_snapshots = source_path @ [''.fst'', ''snapshots''];
          source_manifests = source_path @ [''.fst'', ''manifests''];
          target_snapshots = target_path @ [''.fst'', ''snapshots''];
          target_manifests = target_path @ [''.fst'', ''manifests''];
          meta_path = path_join source_snapshots (fstr L base_id @ ''.meta.json'')
      in bindE (load_json fs meta_path) (\<lambda>meta_data.
         if \<not> truthy meta_data then Inr (fs, False)
         else bindE (py_get meta_data ''manifest_hash'') (\<lambda>manifest_hash.
         if \<not> truthy manifest_hash then Inr (fs, False)
         else let manifest_path = path_join source_manifests (fstr L manifest_hash @ ''.json'') in
         if \<not> path_exists fs manifest_path then Inr (fs, False)
         else bindE (mkdir_p fs target_snapshots) (\<lambda>fs1.
              bindE (mkdir_p fs1 target_manifests) (\<lambda>fs2.
              let target_meta = path_join target_snapshots (fstr L base_id @ ''.meta.json'');
                  target_manifest = path_join target_manifests (fstr L manifest_hash @ ''.json'')
              in bindE (write_meta_if_absent fs2 target_meta meta_data) (\<lambda>fs3.
                 bindE (write_manifest_if_absent fs3 target_manifest manifest_path) (\<lambda>fs4.
                 Inr (fs4, True))))))))"

section \<open>The reconciliation run\<close>

text \<open>
  The state of a run of \<^verbatim>\<open>main\<close>: the file system, the workspace records of the loaded
  index (shared by \<^verbatim>\<open>workspaces\<close>, \<^verbatim>\<open>ws_by_id\<close> and \<^verbatim>\<open>ws_by_project\<close>, which therefore
  hold positions in this list), and the four counters.
\<close>

record run =
  disk :: fsys
  wlist :: "json list"
  updated_configs :: nat
  updated_index :: nat
  updated_parents :: nat
  copied_bases :: nat

fun foldE :: "('a \<Rightarrow> 's \<Rightarrow> 's result) \<Rightarrow> 'a list \<Rightarrow> 's \<Rightarrow> 's result" where
  "foldE f [] s = Inr s"
| "foldE f (x # xs) s = bindE (f x s) (foldE f xs)"



subsection \<open>The lookup tables (lines 114 to 120)\<close>



text \<open>\<^verbatim>\<open>ws_by_project.get(pid, [])\<close>, and \<^verbatim>\<open>k in ws_by_id\<close> with \<^verbatim>\<open>ws_by_id[k]\<close>.\<close>

definition project_workspaces :: "(json \<times> nat list) list \<Rightarrow> json \<Rightarrow> nat list result" where
  "project_workspaces by_project pid =
     (if \<not> hashable pid then Inl TypeError
      else Inr (case pydict_get by_project pid of None \<Rightarrow> [] | Some l \<Rightarrow> l))"

definition workspace_by_id :: "(json \<times> nat) list \<Rightarrow> json \<Rightarrow> nat option result" where
  "workspace_by_id by_id k = (if \<not> hashable k then Inl TypeError else Inr (pydict_get by_id k))"

subsection \<open>Phase A: workspace configs and index entries (lines 128 to 156)\<close>

definition migrate_legacy :: "json \<Rightarrow> (json \<times> bool) result" where
  "migrate_legacy cfg =
     bindE (py_get cfg ''base_snapshot_id'') (\<lambda>b.
       if truthy b then Inr (cfg, False)
       else bindE (py_get cfg ''fork_snapshot_id'') (\<lambda>f.
         if \<not> truthy f then Inr (cfg, False)
         else bindE (py_setitem cfg ''base_snapshot_id'' f) (\<lambda>cfg1.
              bindE (py_pop cfg1 ''fork_snapshot_id'') (\<lambda>cfg2.
              Inr (cfg2, True)))))"

definition resolve_missing_base :: "pylib \<Rightarrow> fsys \<Rightarrow> path \<Rightarrow> json \<times> bool \<Rightarrow> (json \<times> bool) result" where
  "resolve_missing_base L fs p c =
     bindE (py_get (fst c) ''base_snapshot_id'') (\<lambda>b.
       if truthy b then Inr c
       else bindE (pick_snapshot_id L fs (p @ [''.fst'', ''snapshots'']) ''earliest'') (\<lambda>base_id.
         if \<not> truthy base_id then Inr c
         else bindE (py_setitem (fst c) ''base_snapshot_id'' base_id) (\<lambda>cfg1.
              bindE (py_get cfg1 ''current_snapshot_id'') (\<lambda>cur.
              bindE (if \<not> truthy cur then py_setitem cfg1 ''current_snapshot_id'' base_id
                     else Inr cfg1) (\<lambda>cfg2.
              Inr (cfg2, True))))))"

definition repair_workspace :: "pylib \<Rightarrow> nat \<Rightarrow> run \<Rightarrow> run result" where
  "repair_workspace L i st =
     (let w = wlist st ! i in
      bindE (py_get w ''path'') (\<lambda>path.
      if \<not> truthy path then Inr st
      else bindE (Path path) (\<lambda>p.
      let cfg_path = p @ [''.fst'', ''config.json''] in
      bindE (load_json (disk st) cfg_path) (\<lambda>cfg.
      if cfg = JNull then Inr st
      else bindE (migrate_legacy cfg) (\<lambda>m.
           bindE (resolve_missing_base L (disk st) p m) (\<lambda>c.
           bindE (if snd c
                  then bindE (save_json (disk st) cfg_path (fst c)) (\<lambda>d.
                         Inr (st\<lparr>disk := d, updated_configs := updated_configs st + 1\<rparr>))
                  else Inr st) (\<lambda>st1.
           bindE (py_get (fst c) ''base_snapshot_id'') (\<lambda>base_id.
           bindE (if truthy base_id
                  then bindE (py_get w ''base_snapshot_id'') (\<lambda>wb. Inr (\<not> truthy wb))
                  else Inr False) (\<lambda>fill.
           if fill
           then bindE (py_setitem w ''base_snapshot_id'' base_id) (\<lambda>w'.
                  Inr (st1\<lparr>wlist := (wlist st1)[i := w'], updated_index := updated_index st1 + 1\<rparr>))
           else Inr st1)))))))))"

definition phase_A :: "pylib \<Rightarrow> run \<Rightarrow> run result" where
  "phase_A L st = foldE (repair_workspace L) [0..<length (wlist st)] st"

subsection \<open>Phase B: parent configs (lines 159 to 221)\<close>

text \<open>The loop of lines 170 to 176 (and 238 to 244).\<close>

fun first_root :: "fsys \<Rightarrow> json list \<Rightarrow> nat list \<Rightarrow> path option result" where
  "first_root fs wl [] = Inr None"
| "first_root fs wl (i # rest) =
     bindE (py_get (wl ! i) ''path'') (\<lambda>wpath.
       if \<not> truthy wpath then first_root fs wl rest
       else bindE (Path wpath) (\<lambda>q.
            case find_parent_root fs q of
              Some r \<Rightarrow> Inr (Some r)
            | None \<Rightarrow> first_root fs wl rest))"

text \<open>Lines 163 to 176 (and 231 to 244): the root of a project.\<close>

definition locate_parent_root ::
  "fsys \<Rightarrow> json list \<Rightarrow> (json \<times> nat list) list \<Rightarrow> json \<Rightarrow> json \<Rightarrow> path option result" where
  "locate_parent_root fs wl by_project p pid =
     bindE (py_get p ''project_path'') (\<lambda>project_path.
     bindE (if truthy project_path
            then bindE (Path project_path) (\<lambda>pp.
                   Inr (if path_exists fs (pp @ [''fst.json'']) then Some pp else None))
            else Inr None) (\<lambda>parent_root.
     case parent_root of
       Some r \<Rightarrow> Inr (Some r)
     | None \<Rightarrow> bindE (project_workspaces by_project pid) (first_root fs wl)))"

text \<open>The loop of lines 194 to 205: the first workspace that yields an id.\<close>

fun scan_candidates :: "pylib \<Rightarrow> fsys \<Rightarrow> json list \<Rightarrow> nat list \<Rightarrow> (json \<times> json) option result" where
  "scan_candidates L fs wl [] = Inr None"
| "scan_candidates L fs wl (i # rest) =
     (let w = wl ! i in
      bindE (py_get w ''path'') (\<lambda>wpath.
      if \<not> truthy wpath then scan_candidates L fs wl rest
      else bindE (py_get w ''base_snapshot_id'') (\<lambda>base_id0.
           bindE (if \<not> truthy base_id0
                  then bindE (Path wpath) (\<lambda>q.
                         pick_snapshot_id L fs (q @ [''.fst'', ''snapshots'']) ''earliest'')
                  else Inr base_id0) (\<lambda>base_id.
           if \<not> truthy base_id then scan_candidates L fs wl rest
           else Inr (Some (w, base_id))))))"

text \<open>
  Lines 187 to 215: the base workspace and its snapshot id; \<open>None\<close> is the
  \<^verbatim>\<open>continue\<close> of line 209.
\<close>

definition choose_base ::
  "pylib \<Rightarrow> fsys \<Rightarrow> json list \<Rightarrow> (json \<times> nat) list \<Rightarrow> (json \<times> nat list) list \<Rightarrow> json \<Rightarrow> json
     \<Rightarrow> (json \<times> json) option result" where
  "choose_base L fs wl by_id by_project pid parent_cfg =
     bindE (py_get parent_cfg ''base_workspace_id'') (\<lambda>base_ws_id.
     bindE (if truthy base_ws_id then workspace_by_id by_id base_ws_id else Inr None) (\<lambda>base_ws.
     case base_ws of
       None \<Rightarrow> bindE (project_workspaces by_project pid) (scan_candidates L fs wl)
     | Some i \<Rightarrow>
         (let w = wl ! i in
          bindE (py_get w ''base_snapshot_id'') (\<lambda>base_id0.
          if truthy base_id0 then Inr (Some (w, base_id0))
          else bindE (py_get w ''path'') (\<lambda>wpath.
               if truthy wpath
               then bindE (Path wpath) (\<lambda>q.
                    bindE (pick_snapshot_id L fs (q @ [''.fst'', ''snapshots'']) ''earliest'') (\<lambda>base_id.
                    Inr (Some (w, base_id))))
               else Inr (Some (w, base_id0)))))))"

definition repair_parent ::
  "pylib \<Rightarrow> (json \<times> nat) list \<Rightarrow> (json \<times> nat list) list \<Rightarrow> json \<Rightarrow> run \<Rightarrow> run result" where
  "repair_parent L by_id by_project p st =
     bindE (py_get p ''project_id'') (\<lambda>pid.
     if \<not> truthy pid then Inr st
     else bindE (locate_parent_root (disk st) (wlist st) by_project p pid) (\<lambda>root.
     case root of
       None \<Rightarrow> Inr st
     | Some parent_root \<Rightarrow>
         (let parent_cfg_path = parent_root @ [''fst.json''] in
          bindE (load_json (disk st) parent_cfg_path) (\<lambda>parent_cfg.
          if parent_cfg = JNull then Inr st
          else bindE (py_get parent_cfg ''base_snapshot_id'') (\<lambda>b.
          if truthy b then Inr st
          else bindE (choose_base L (disk st) (wlist st) by_id by_project pid parent_cfg) (\<lambda>choice.
          case choice of
            None \<Rightarrow> Inr st
          | Some (base_ws, base_id) \<Rightarrow>
              if truthy base_ws \<and> truthy base_id
              then bindE (py_setitem parent_cfg ''base_snapshot_id'' base_id) (\<lambda>cfg1.
                   bindE (py_get base_ws ''workspace_id'') (\<lambda>wid.
                   bindE (py_setitem cfg1 ''base_workspace_id'' wid) (\<lambda>cfg2.
                   bindE (save_json (disk st) parent_cfg_path cfg2) (\<lambda>d.
                   Inr (st\<lparr>disk := d, updated_parents := updated_parents st + 1\<rparr>)))))
              else Inr st))))))"

definition phase_B ::
  "pylib \<Rightarrow> (json \<times> nat) list \<Rightarrow> (json \<times> nat list) list \<Rightarrow> json list \<Rightarrow> run \<Rightarrow> run result" where
  "phase_B L by_id by_project projects st = foldE (repair_parent L by_id by_project) projects st"

subsection \<open>Phase C: the index (lines 223 and 224)\<close>


subsection \<open>Replication (lines 227 to 267)\<close>




subsection \<open>\<^verbatim>\<open>main\<close>\<close>



section \<open>Notions used to state the properties\<close>

text \<open>The value of a field of a document, \<open>JNull\<close> when the document has none.\<close>

definition field :: "json \<Rightarrow> string \<Rightarrow> json" where
  "field j k = (case j of JObj kvs \<Rightarrow> (case map_of kvs k of None \<Rightarrow> JNull | Some v \<Rightarrow> v) | _ \<Rightarrow> JNull)"






text \<open>Every entry of the first file system is still there, unchanged, in the second.\<close>

definition kept :: "fsys \<Rightarrow> fsys \<Rightarrow> bool" where
  "kept fs fs' = (\<forall>q. lookup fs q \<noteq> None \<longrightarrow> lookup fs' q = lookup fs q)"

text \<open>An existing file with a new text.\<close>

definition overwrite :: "fsys \<Rightarrow> path \<Rightarrow> content \<Rightarrow> fsys" where
  "overwrite fs p t = fs\<lparr>entries := AList.update p (File t) (entries fs), written := written fs @ [p]\<rparr>"

text \<open>Lines 153 to 156: the entry of the index.\<close>

definition fill_entry :: "nat \<Rightarrow> json \<Rightarrow> run \<Rightarrow> run" where
  "fill_entry i base_id st =
     (case wlist st ! i of
        JObj w \<Rightarrow>
          if truthy base_id \<and> \<not> truthy (field (JObj w) ''base_snapshot_id'')
          then st\<lparr>wlist := (wlist st)[i := JObj (AList.update ''base_snapshot_id'' base_id w)],
                  updated_index := updated_index st + 1\<rparr>
          else st
      | _ \<Rightarrow> st)"

definition legacy_config :: "fsys \<Rightarrow> path \<Rightarrow> json \<Rightarrow> bool" where
  "legacy_config fs c f =
     (\<exists>kvs. load_json fs c = Inr (JObj kvs) \<and> \<not> truthy (field (JObj kvs) ''base_snapshot_id'')
            \<and> field (JObj kvs) ''fork_snapshot_id'' = f)"

definition migrated_config :: "fsys \<Rightarrow> path \<Rightarrow> json \<Rightarrow> bool" where
  "migrated_config fs c f =
     (\<exists>kvs. load_json fs c = Inr (JObj kvs) \<and> map_of kvs ''base_snapshot_id'' = Some f
            \<and> map_of kvs ''fork_snapshot_id'' = None)"

text \<open>
  The snapshot id that a workspace of the project yields in the scan: none without a path,
  else its recorded \<^verbatim>\<open>base_snapshot_id\<close>, else the earliest pick of its snapshots directory.
\<close>

definition yields :: "pylib \<Rightarrow> fsys \<Rightarrow> json \<Rightarrow> json result" where
  "yields L fs w =
     bindE (py_get w ''path'') (\<lambda>wpath.
     if \<not> truthy wpath then Inr JNull
     else bindE (py_get w ''base_snapshot_id'') (\<lambda>b.
          if truthy b then Inr b
          else bindE (Path wpath) (\<lambda>q.
               pick_snapshot_id L fs (q @ [''.fst'', ''snapshots'']) ''earliest'')))"










text \<open>The state with the first three counters at zero, as a run starts.\<close>

definition reset :: "run \<Rightarrow> run" where
  "reset x = x\<lparr>updated_configs := 0, updated_index := 0, updated_parents := 0\<rparr>"


subsection \<open>Concrete inputs\<close>

definition demo_lib :: pylib where
  "demo_lib = \<lparr>fromisoformat = map_of
       [(''2024-01-01T00:00:00+00:00'', Aware 100), (''2024-01-02T00:00:00+00:00'', Aware 200),
        (''2024-01-03T00:00:00'', Naive 300)],
     format_other = (\<lambda>v. ''None'')\<rparr>"



definition demo_clobber :: fsys where
  "demo_clobber = \<lparr>entries =
     [([''w1''], Dir), ([''w1'', ''.fst''], Dir), ([''w1'', ''.fst'', ''snapshots''], Dir),
      ([''w1'', ''.fst'', ''snapshots'', ''s1.meta.json''],
         File (Json (JObj [(''id'', JStr ''s1''), (''manifest_hash'', JStr ''h'')]))),
      ([''w1'', ''.fst'', ''manifests''], Dir),
      ([''w1'', ''.fst'', ''manifests'', ''h.json''], File (Json (JObj [(''files'', JArr [])]))),
      ([''w2''], Dir), ([''w2'', ''.fst''], Dir), ([''w2'', ''.fst'', ''manifests''], Dir),
      ([''w2'', ''.fst'', ''manifests'', ''h.json''], File (Junk ''corrupted''))],
     written = []\<rparr>"






definition demo_legacy :: run where
  "demo_legacy = \<lparr>disk = \<lparr>entries =
       [([''w''], Dir), ([''w'', ''.fst''], Dir),
        ([''w'', ''.fst'', ''config.json''], File (Json (JObj [(''fork_snapshot_id'', JStr ''abc'')]))),
        ([''v''], Dir), ([''v'', ''.fst''], Dir),
        ([''v'', ''.fst'', ''config.json''], File (Json (JObj [(''base_snapshot_id'', JStr ''s9'')])))],
       written = []\<rparr>,
     wlist = [JObj [(''workspace_id'', JStr ''v''), (''path'', JStr ''/v'')],
              JObj [(''workspace_id'', JStr ''w''), (''path'', JStr ''/w'')],
              JObj [(''workspace_id'', JStr ''w-again''), (''path'', JStr ''/w/'')]],
     updated_configs = 0, updated_index = 0, updated_parents = 0, copied_bases = 0\<rparr>"

definition demo_projects :: "json list" where
  "demo_projects =
     [JObj [(''project_id'', JStr ''p''), (''project_path'', JStr ''/p'')],
      JObj [(''project_id'', JStr ''q''), (''project_path'', JStr ''/q'')],
      JObj [(''project_id'', JStr ''r''), (''project_path'', JStr ''/r'')]]"

definition demo_by_id :: "(json \<times> nat) list" where
  "demo_by_id = [(JStr ''w1'', 0), (JStr ''w2'', 1), (JStr ''w3'', 2), (JStr ''w4'', 3)]"

definition demo_by_project :: "(json \<times> nat list) list" where
  "demo_by_project = [(JStr ''p'', [0]), (JStr ''q'', [1, 2]), (JStr ''r'', [3])]"

definition demo_registry :: "json list" where
  "demo_registry =
     [JObj [(''workspace_id'', JStr ''w1''), (''project_id'', JStr ''p''), (''path'', JStr ''/w1''),
            (''base_snapshot_id'', JStr ''s1'')],
      JObj [(''workspace_id'', JStr ''w2''), (''project_id'', JStr ''q''), (''path'', JStr ''/w2'')],
      JObj [(''workspace_id'', JStr ''w3''), (''project_id'', JStr ''q''), (''path'', JStr ''/w3'')],
      JObj [(''workspace_id'', JStr ''w4''), (''project_id'', JStr ''r''), (''path'', JStr ''/w4'')]]"

definition demo_parents :: "json \<Rightarrow> (path \<times> node) list" where
  "demo_parents q_config =
     [([''p''], Dir), ([''p'', ''fst.json''], File (Json (JObj [(''base_snapshot_id'', JStr ''x'')]))),
      ([''q''], Dir), ([''q'', ''fst.json''], File (Json q_config)),
      ([''r''], Dir), ([''r'', ''fst.json''], File (Json (JObj [(''name'', JStr ''r'')]))),
      ([''w3''], Dir), ([''w3'', ''.fst''], Dir), ([''w3'', ''.fst'', ''snapshots''], Dir),
      ([''w3'', ''.fst'', ''snapshots'', ''s3.meta.json''], File (Json (JObj [(''id'', JStr ''s3'')])))]"

definition demo_explicit :: run where
  "demo_explicit = \<lparr>disk = \<lparr>entries = demo_parents (JObj [(''name'', JStr ''q'')]), written = []\<rparr>,
     wlist = demo_registry,
     updated_configs = 0, updated_index = 0, updated_parents = 0, copied_bases = 0\<rparr>"

definition demo_named :: run where
  "demo_named = \<lparr>disk = \<lparr>entries = demo_parents (JObj [(''base_workspace_id'', JStr ''w2'')]),
                          written = []\<rparr>,
     wlist = demo_registry,
     updated_configs = 0, updated_index = 0, updated_parents = 0, copied_bases = 0\<rparr>"



section \<open>Basic facts\<close>

lemma bindE_Inr [simp]: "bindE (Inr x) f = f x"
  by (simp add: bindE_def)

lemma bindE_Inl [simp]: "bindE (Inl e) f = Inl e"
  by (simp add: bindE_def)

lemma bindE_eq_Inr: "bindE m f = Inr y \<longleftrightarrow> (\<exists>x. m = Inr x \<and> f x = Inr y)"
  by (cases m) auto

subsection \<open>The file system\<close>

lemma lookup_update:
  "lookup (fs\<lparr>entries := AList.update p n (entries fs), written := w\<rparr>) q
     = (if q = [] then Some Dir else if q = p then Some n else lookup fs q)"
  by (simp add: lookup_def update_conv')

lemma write_text_Inr:
  assumes "write_text fs p t = Inr fs'"
  shows "fs' = fs\<lparr>entries := AList.update p (File t) (entries fs), written := written fs @ [p]\<rparr>"
    and "\<not> under_file fs p" and "lookup fs p \<noteq> Some Dir"
  using assms by (auto simp: write_text_def split: if_splits option.splits node.splits)

lemma write_text_lookup:
  assumes "write_text fs p t = Inr fs'"
  shows "lookup fs' q = (if q = p then Some (File t) else lookup fs q)"
proof -
  have "p \<noteq> []" using assms by (auto simp: write_text_def lookup_def split: if_splits)
  then show ?thesis
    using write_text_Inr(1)[OF assms] by (auto simp: lookup_def update_conv')
qed

lemma write_text_written:
  "write_text fs p t = Inr fs' \<Longrightarrow> written fs' = written fs @ [p]"
  using write_text_Inr(1)[of fs p t fs'] by simp

lemma add_dir_lookup:
  "lookup (add_dir fs p) q = (if q = p \<and> lookup fs p = None then Some Dir else lookup fs q)"
  by (auto simp: add_dir_def lookup_def update_conv')

lemma add_dir_written [simp]: "written (add_dir fs p) = written fs"
  by (simp add: add_dir_def)

lemma add_dirs_keep:
  "lookup fs q \<noteq> None \<Longrightarrow> lookup (fold (\<lambda>n fs'. add_dir fs' (take n p)) ns fs) q = lookup fs q"
  by (induction ns arbitrary: fs) (auto simp: add_dir_lookup)

lemma add_dirs_written [simp]:
  "written (fold (\<lambda>n fs'. add_dir fs' (take n p)) ns fs) = written fs"
  by (induction ns arbitrary: fs) auto

lemma add_dirs_cases:
  "lookup (fold (\<lambda>n fs'. add_dir fs' (take n p)) ns fs) q = lookup fs q
   \<or> (lookup fs q = None \<and> lookup (fold (\<lambda>n fs'. add_dir fs' (take n p)) ns fs) q = Some Dir)"
proof (induction ns arbitrary: fs)
  case Nil
  then show ?case by simp
next
  case (Cons n ns)
  show ?case
    using Cons[of "add_dir fs (take n p)"] by (auto simp: add_dir_lookup split: if_splits)
qed

lemma mkdir_p_Inr: "mkdir_p fs p = Inr fs' \<Longrightarrow> fs' = make_dirs fs p"
  by (auto simp: mkdir_p_def split: if_splits)

lemma mkdir_p_keep:
  "mkdir_p fs p = Inr fs' \<Longrightarrow> lookup fs q \<noteq> None \<Longrightarrow> lookup fs' q = lookup fs q"
  by (drule mkdir_p_Inr) (simp add: make_dirs_def add_dirs_keep)

lemma mkdir_p_cases:
  "mkdir_p fs p = Inr fs' \<Longrightarrow>
     lookup fs' q = lookup fs q \<or> (lookup fs q = None \<and> lookup fs' q = Some Dir)"
  by (drule mkdir_p_Inr) (simp add: make_dirs_def add_dirs_cases)

lemma mkdir_p_written: "mkdir_p fs p = Inr fs' \<Longrightarrow> written fs' = written fs"
  by (drule mkdir_p_Inr) (simp add: make_dirs_def)

lemma path_exists_lookup: "path_exists fs p \<Longrightarrow> lookup fs p \<noteq> None"
  by (simp add: path_exists_def)

lemma kept_refl: "kept fs fs"
  by (simp add: kept_def)

lemma kept_trans: "kept a b \<Longrightarrow> kept b c \<Longrightarrow> kept a c"
  by (auto simp: kept_def)

lemma kept_None: "kept a b \<Longrightarrow> lookup b q = None \<Longrightarrow> lookup a q = None"
  by (auto simp: kept_def)

lemma mkdir_p_kept: "mkdir_p fs p = Inr fs' \<Longrightarrow> kept fs fs'"
  by (simp add: kept_def mkdir_p_keep)

section \<open>The records of a snapshot directory\<close>


lemma truthy_field: "truthy (field j k) \<Longrightarrow> truthy j"
  by (cases j) (auto simp: field_def)







section \<open>Picking a snapshot: order and absence\<close>






section \<open>Replication never overwrites\<close>

text \<open>A guarded write: what lines 96 to 99 do with one target.\<close>

lemma guarded_write:
  assumes w: "\<not> path_exists fs p \<Longrightarrow> \<exists>t. write_text fs p t = Inr fs'"
    and k: "path_exists fs p \<Longrightarrow> fs' = fs"
  shows "kept fs fs' \<and>
         (written fs' = written fs \<or> (written fs' = written fs @ [p] \<and> lookup fs p = None))"
proof (cases "path_exists fs p")
  case True
  then show ?thesis using k by (simp add: kept_refl)
next
  case False
  then obtain t where wt: "write_text fs p t = Inr fs'"
    using w by blast
  have nu: "\<not> under_file fs p" by (rule write_text_Inr(2)[OF wt])
  with False have none: "lookup fs p = None" by (simp add: path_exists_def)
  show ?thesis
    using none write_text_lookup[OF wt] write_text_written[OF wt] by (auto simp: kept_def)
qed

text \<open>
  Claim C8. \<^verbatim>\<open>copy_base_snapshot\<close> writes the metadata document of the base snapshot into
  the snapshot directory of the target only if no entry of that name exists there, and the
  manifest under its hash only if none exists there; every entry that existed before the
  call, whatever its content, is the same after it.
\<close>

theorem copy_base_snapshot_no_clobber:
  assumes "copy_base_snapshot L fs source_path target_path base_id = Inr (fs', ok)"
  shows "(\<forall>q n. lookup fs q = Some n \<longrightarrow> lookup fs' q = Some n)
       \<and> (\<exists>ws. written fs' = written fs @ ws
             \<and> (\<forall>w\<in>set ws. lookup fs w = None \<and> \<not> path_exists fs w
                   \<and> (w = path_join (target_path @ [''.fst'', ''snapshots'']) (fstr L base_id @ ''.meta.json'')
                        \<or> (\<exists>h. w = path_join (target_path @ [''.fst'', ''manifests'']) (fstr L h @ ''.json'')))))"
proof -
  let ?tgt = "\<lambda>w. w = path_join (target_path @ [''.fst'', ''snapshots'']) (fstr L base_id @ ''.meta.json'')
                        \<or> (\<exists>h. w = path_join (target_path @ [''.fst'', ''manifests'']) (fstr L h @ ''.json''))"
  have goal: "kept fs fs' \<and> (\<exists>ws. written fs' = written fs @ ws \<and> (\<forall>w\<in>set ws. lookup fs w = None \<and> ?tgt w))"
  proof (cases "fs' = fs")
    case True
    then show ?thesis by (simp add: kept_refl)
  next
    case False
    from assms False obtain meta_data manifest_hash fs1 fs2 fs3 where
      m1: "mkdir_p fs (target_path @ [''.fst'', ''snapshots'']) = Inr fs1" and
      m2: "mkdir_p fs1 (target_path @ [''.fst'', ''manifests'']) = Inr fs2" and
      w1: "write_meta_if_absent fs2
             (path_join (target_path @ [''.fst'', ''snapshots'']) (fstr L base_id @ ''.meta.json''))
             meta_data = Inr fs3" and
      w2: "write_manifest_if_absent fs3
             (path_join (target_path @ [''.fst'', ''manifests'']) (fstr L manifest_hash @ ''.json''))
             (path_join (source_path @ [''.fst'', ''manifests'']) (fstr L manifest_hash @ ''.json''))
           = Inr fs'"
      unfolding copy_base_snapshot_def Let_def
      by (auto simp: bindE_eq_Inr split: if_splits)
    define tm where "tm = path_join (target_path @ [''.fst'', ''snapshots'']) (fstr L base_id @ ''.meta.json'')"
    define tf where "tf = path_join (target_path @ [''.fst'', ''manifests'']) (fstr L manifest_hash @ ''.json'')"
    have k1: "kept fs fs1" and k2: "kept fs1 fs2"
      using m1 m2 by (auto intro: mkdir_p_kept)
    have wr2: "written fs2 = written fs"
      using mkdir_p_written[OF m1] mkdir_p_written[OF m2] by simp
    have g3: "kept fs2 fs3 \<and>
         (written fs3 = written fs2 \<or> (written fs3 = written fs2 @ [tm] \<and> lookup fs2 tm = None))"
      using w1 unfolding tm_def[symmetric] write_meta_if_absent_def
      by (intro guarded_write) (auto split: if_splits)
    have g4: "kept fs3 fs' \<and>
         (written fs' = written fs3 \<or> (written fs' = written fs3 @ [tf] \<and> lookup fs3 tf = None))"
      using w2 unfolding tf_def[symmetric] write_manifest_if_absent_def
      by (intro guarded_write) (auto simp: bindE_eq_Inr split: if_splits)
    have k02: "kept fs fs2" using k1 k2 by (rule kept_trans)
    have k03: "kept fs fs3" using k02 g3 by (blast intro: kept_trans)
    have k04: "kept fs fs'" using k03 g4 by (blast intro: kept_trans)
    have n3: "lookup fs2 tm = None \<Longrightarrow> lookup fs tm = None" using k02 by (rule kept_None)
    have n4: "lookup fs3 tf = None \<Longrightarrow> lookup fs tf = None" using k03 by (rule kept_None)
    have t1: "?tgt tm" by (simp add: tm_def)
    have t2: "?tgt tf" unfolding tf_def by blast
    consider "written fs' = written fs @ []"
      | "written fs' = written fs @ [tm]" "lookup fs tm = None"
      | "written fs' = written fs @ [tf]" "lookup fs tf = None"
      | "written fs' = written fs @ [tm, tf]" "lookup fs tm = None" "lookup fs tf = None"
      using g3 g4 wr2 n3 n4 by auto
    then have "\<exists>ws. written fs' = written fs @ ws \<and> (\<forall>w\<in>set ws. lookup fs w = None \<and> ?tgt w)"
    proof cases
      case 1 then show ?thesis by (intro exI[of _ "[]"]) simp
    next
      case 2 then show ?thesis using t1 by (intro exI[of _ "[tm]"]) simp
    next
      case 3 then show ?thesis using t2 by (intro exI[of _ "[tf]"]) simp
    next
      case 4 then show ?thesis using t1 t2 by (intro exI[of _ "[tm, tf]"]) simp
    qed
    with k04 show ?thesis by simp
  qed
  then obtain ws where k: "kept fs fs'" and ws: "written fs' = written fs @ ws"
    and none: "\<forall>w\<in>set ws. lookup fs w = None \<and> ?tgt w" by blast
  have "\<forall>q n. lookup fs q = Some n \<longrightarrow> lookup fs' q = Some n"
    using k by (auto simp: kept_def)
  moreover have "\<forall>w\<in>set ws. lookup fs w = None \<and> \<not> path_exists fs w \<and> ?tgt w"
    using none by (auto simp: path_exists_def)
  ultimately show ?thesis using ws by blast
qed

theorem copy_base_snapshot_no_clobber_witness:
  "\<exists>fs'. copy_base_snapshot demo_lib demo_clobber [''w1''] [''w2''] (JStr ''s1'') = Inr (fs', True)
         \<and> lookup fs' [''w2'', ''.fst'', ''manifests'', ''h.json''] = Some (File (Junk ''corrupted''))
         \<and> written fs' = [[''w2'', ''.fst'', ''snapshots'', ''s1.meta.json'']]"
proof -
  have "map_sum id snd (copy_base_snapshot demo_lib demo_clobber [''w1''] [''w2''] (JStr ''s1'')) = Inr True"
    by code_simp
  then obtain fs' where c: "copy_base_snapshot demo_lib demo_clobber [''w1''] [''w2''] (JStr ''s1'') = Inr (fs', True)"
    by (cases "copy_base_snapshot demo_lib demo_clobber [''w1''] [''w2''] (JStr ''s1'')") auto
  have w: "map_sum id (\<lambda>r. written (fst r)) (copy_base_snapshot demo_lib demo_clobber [''w1''] [''w2''] (JStr ''s1''))
            = Inr [[''w2'', ''.fst'', ''snapshots'', ''s1.meta.json'']]"
    by code_simp
  have l: "lookup demo_clobber [''w2'', ''.fst'', ''manifests'', ''h.json''] = Some (File (Junk ''corrupted''))"
    by code_simp
  have "lookup fs' [''w2'', ''.fst'', ''manifests'', ''h.json''] = Some (File (Junk ''corrupted''))"
    using copy_base_snapshot_no_clobber[OF c] l by blast
  moreover have "written fs' = [[''w2'', ''.fst'', ''snapshots'', ''s1.meta.json'']]"
    using w c by simp
  ultimately show ?thesis using c by blast
qed

section \<open>Unparseable documents\<close>




subsection \<open>Overwriting an existing file\<close>

lemma read_text_Inr:
  "read_text fs p = Inr t \<longleftrightarrow> (\<not> under_file fs p \<and> lookup fs p = Some (File t))"
  by (auto simp: read_text_def split: option.splits node.splits)

lemma read_text_nonroot: "read_text fs p = Inr t \<Longrightarrow> p \<noteq> []"
  by (auto simp: read_text_Inr lookup_def)

lemma write_text_existing:
  "read_text fs p = Inr t0 \<Longrightarrow> write_text fs p t = Inr (overwrite fs p t)"
  by (auto simp: read_text_Inr write_text_def overwrite_def)

lemma lookup_overwrite:
  "p \<noteq> [] \<Longrightarrow> lookup (overwrite fs p t) q = (if q = p then Some (File t) else lookup fs q)"
  by (auto simp: overwrite_def lookup_def update_conv')

lemma is_file_overwrite:
  "read_text fs p = Inr t0 \<Longrightarrow> is_file (lookup (overwrite fs p t) q) = is_file (lookup fs q)"
  by (frule read_text_nonroot) (auto simp: lookup_overwrite read_text_Inr)

lemma under_file_overwrite:
  "read_text fs p = Inr t0 \<Longrightarrow> under_file (overwrite fs p t) q = under_file fs q"
  by (simp add: under_file_def is_file_overwrite)

lemma read_text_overwrite:
  "read_text fs p = Inr t0 \<Longrightarrow>
   read_text (overwrite fs p t) q = (if q = p then Inr t else read_text fs q)"
  by (frule read_text_nonroot)
     (auto simp: read_text_def under_file_overwrite lookup_overwrite read_text_Inr[symmetric]
           split: option.splits node.splits)


lemma written_overwrite [simp]: "written (overwrite fs p t) = written fs @ [p]"
  by (simp add: overwrite_def)



lemma load_json_overwrite:
  "read_text fs p = Inr t0 \<Longrightarrow>
   load_json (overwrite fs p (Json j)) q = (if q = p then Inr j else load_json fs q)"
  by (simp add: load_json_def read_text_overwrite)

lemma load_json_present:
  "load_json fs p = Inr j \<Longrightarrow> j \<noteq> JNull \<Longrightarrow> read_text fs p = Inr (Json j)"
  by (auto simp: load_json_def split: sum.splits py_error.splits content.splits)

lemma save_json_existing:
  "read_text fs p = Inr t0 \<Longrightarrow> save_json fs p j = Inr (overwrite fs p (Json j))"
  by (simp add: save_json_def write_text_existing)

text \<open>A file that is not a metadata file does not matter to the choice of a snapshot.\<close>

lemma ends_with_meta_config: "\<not> ends_with ''.meta.json'' ''config.json''"
  and ends_with_meta_marker: "\<not> ends_with ''.meta.json'' ''fst.json''"
  and ends_with_meta_index: "\<not> ends_with ''.meta.json'' ''index.json''"
  by (simp_all add: ends_with_def)






subsection \<open>Phase A, one workspace\<close>

lemma py_get_obj: "py_get (JObj kvs) k = Inr (field (JObj kvs) k)"
  by (simp add: py_get_def field_def)

lemma py_get_Inr: "py_get j k = Inr v \<Longrightarrow> \<exists>kvs. j = JObj kvs \<and> v = field (JObj kvs) k"
  by (cases j) (auto simp: py_get_def field_def)

lemma Path_truthy: "Path v = Inr p \<Longrightarrow> truthy v \<Longrightarrow> \<exists>s. v = JStr s \<and> s \<noteq> [] \<and> p = components s"
  by (cases v) auto

lemma field_update:
  "field (JObj (AList.update k v kvs)) k' = (if k' = k then v else field (JObj kvs) k')"
  by (simp add: field_def update_conv')

lemma field_delete:
  "field (JObj (AList.delete k kvs)) k' = (if k' = k then JNull else field (JObj kvs) k')"
  by (simp add: field_def delete_conv')

lemma migrate_legacy_obj:
  "migrate_legacy (JObj kvs) =
     Inr (if \<not> truthy (field (JObj kvs) ''base_snapshot_id'') \<and> truthy (field (JObj kvs) ''fork_snapshot_id'')
          then (JObj (AList.delete ''fork_snapshot_id''
                        (AList.update ''base_snapshot_id'' (field (JObj kvs) ''fork_snapshot_id'') kvs)), True)
          else (JObj kvs, False))"
  by (simp add: migrate_legacy_def py_get_obj)

lemma migrate_legacy_Inr:
  "migrate_legacy cfg = Inr m \<Longrightarrow> \<exists>kvs. cfg = JObj kvs"
  by (cases cfg) (auto simp: migrate_legacy_def py_get_def)

lemma resolve_missing_base_obj:
  "resolve_missing_base L fs p (JObj kvs, ch) =
     (if truthy (field (JObj kvs) ''base_snapshot_id'') then Inr (JObj kvs, ch)
      else bindE (pick_snapshot_id L fs (p @ [''.fst'', ''snapshots'']) ''earliest'') (\<lambda>sid.
             if \<not> truthy sid then Inr (JObj kvs, ch)
             else Inr (JObj (if truthy (field (JObj kvs) ''current_snapshot_id'')
                             then AList.update ''base_snapshot_id'' sid kvs
                             else AList.update ''current_snapshot_id'' sid
                                    (AList.update ''base_snapshot_id'' sid kvs)), True)))"
  by (auto simp: resolve_missing_base_def py_get_obj field_update intro!: arg_cong2[where f=bindE] ext)

lemma resolve_missing_base_Inr:
  "resolve_missing_base L fs p (JObj kvs, ch) = Inr c \<Longrightarrow> \<exists>kvs'. fst c = JObj kvs'"
  by (auto simp: resolve_missing_base_obj bindE_eq_Inr split: if_splits)

lemma repair_workspace_obj:
  assumes "py_get (wlist st ! i) ''path'' = Inr (JStr s)" "s \<noteq> []"
    and "load_json (disk st) (components s @ [''.fst'', ''config.json'']) = Inr (JObj kvs)"
    and "migrate_legacy (JObj kvs) = Inr m"
    and "resolve_missing_base L (disk st) (components s) m = Inr (JObj kvs', ch)"
  shows "repair_workspace L i st =
           Inr (fill_entry i (field (JObj kvs') ''base_snapshot_id'')
                 (if ch then st\<lparr>disk := overwrite (disk st) (components s @ [''.fst'', ''config.json''])
                                            (Json (JObj kvs')),
                                 updated_configs := updated_configs st + 1\<rparr>
                  else st))"
proof -
  obtain w where w: "wlist st ! i = JObj w"
    using assms(1) py_get_Inr by blast
  have rt: "read_text (disk st) (components s @ [''.fst'', ''config.json'']) = Inr (Json (JObj kvs))"
    using assms(3) by (intro load_json_present) auto
  show ?thesis
    using assms w
    by (auto simp: repair_workspace_def fill_entry_def py_get_obj save_json_existing[OF rt] Let_def)
qed

lemma disk_fill_entry [simp]: "disk (fill_entry i b st) = disk st"
  and updated_configs_fill_entry [simp]: "updated_configs (fill_entry i b st) = updated_configs st"
  and updated_parents_fill_entry [simp]: "updated_parents (fill_entry i b st) = updated_parents st"
  and copied_bases_fill_entry [simp]: "copied_bases (fill_entry i b st) = copied_bases st"
  and length_wlist_fill_entry [simp]: "length (wlist (fill_entry i b st)) = length (wlist st)"
  by (auto simp: fill_entry_def split: json.splits)

lemma wlist_fill_entry_other: "k \<noteq> i \<Longrightarrow> wlist (fill_entry i b st) ! k = wlist st ! k"
  by (auto simp: fill_entry_def split: json.splits)

lemma repair_workspace_cases:
  assumes "repair_workspace L i st = Inr st'"
  obtains (skip) "st' = st"
    | (repair) s kvs m kvs' ch where
        "py_get (wlist st ! i) ''path'' = Inr (JStr s)" "s \<noteq> []"
        "load_json (disk st) (components s @ [''.fst'', ''config.json'']) = Inr (JObj kvs)"
        "migrate_legacy (JObj kvs) = Inr m"
        "resolve_missing_base L (disk st) (components s) m = Inr (JObj kvs', ch)"
        "st' = fill_entry i (field (JObj kvs') ''base_snapshot_id'')
                 (if ch then st\<lparr>disk := overwrite (disk st) (components s @ [''.fst'', ''config.json''])
                                            (Json (JObj kvs')),
                                 updated_configs := updated_configs st + 1\<rparr>
                  else st)"
proof -
  obtain path where path: "py_get (wlist st ! i) ''path'' = Inr path"
    using assms by (auto simp: repair_workspace_def Let_def bindE_eq_Inr)
  show thesis
  proof (cases "truthy path")
    case False
    then have "st' = st" using assms path by (simp add: repair_workspace_def Let_def)
    then show thesis by (rule skip)
  next
    case True
    then obtain p where p: "Path path = Inr p"
      using assms path by (auto simp: repair_workspace_def Let_def bindE_eq_Inr)
    then obtain s where s: "path = JStr s" "s \<noteq> []" "p = components s"
      using True Path_truthy by blast
    obtain cfg where cfg: "load_json (disk st) (components s @ [''.fst'', ''config.json'']) = Inr cfg"
      using assms path s True by (auto simp: repair_workspace_def Let_def bindE_eq_Inr)
    show thesis
    proof (cases "cfg = JNull")
      case True
      then have "st' = st" using assms path s cfg by (simp add: repair_workspace_def Let_def)
      then show thesis by (rule skip)
    next
      case False
      then obtain m where m: "migrate_legacy cfg = Inr m"
        using assms path s cfg by (auto simp: repair_workspace_def Let_def bindE_eq_Inr)
      then obtain kvs where kvs: "cfg = JObj kvs" using migrate_legacy_Inr by blast
      obtain k1 c1 where m1: "m = (JObj k1, c1)"
        using m kvs by (auto simp: migrate_legacy_obj split: if_splits)
      obtain c where c: "resolve_missing_base L (disk st) (components s) m = Inr c"
        using assms path s cfg False m by (auto simp: repair_workspace_def Let_def bindE_eq_Inr)
      then obtain kvs' where "fst c = JObj kvs'"
        using m1 resolve_missing_base_Inr by blast
      then have c': "resolve_missing_base L (disk st) (components s) m = Inr (JObj kvs', snd c)"
        using c by (cases c) simp
      have "repair_workspace L i st =
           Inr (fill_entry i (field (JObj kvs') ''base_snapshot_id'')
                 (if snd c then st\<lparr>disk := overwrite (disk st) (components s @ [''.fst'', ''config.json''])
                                            (Json (JObj kvs')),
                                 updated_configs := updated_configs st + 1\<rparr>
                  else st))"
        using path s cfg kvs m c' by (intro repair_workspace_obj) auto
      with assms have "st' = fill_entry i (field (JObj kvs') ''base_snapshot_id'')
                 (if snd c then st\<lparr>disk := overwrite (disk st) (components s @ [''.fst'', ''config.json''])
                                            (Json (JObj kvs')),
                                 updated_configs := updated_configs st + 1\<rparr>
                  else st)" by simp
      then show thesis
        using path s cfg kvs m c' by (intro repair[of s kvs m kvs' "snd c"]) auto
    qed
  qed
qed

lemma repair_workspace_wlist_other:
  assumes "repair_workspace L j st = Inr st'" "k \<noteq> j"
  shows "wlist st' ! k = wlist st ! k"
  using assms(1)
proof (cases rule: repair_workspace_cases)
  case skip
  then show ?thesis by simp
next
  case (repair s kvs m kvs' ch)
  then show ?thesis using assms(2) by (simp add: wlist_fill_entry_other)
qed


subsection \<open>Loops\<close>

lemma foldE_append: "foldE f (xs @ ys) s = bindE (foldE f xs s) (foldE f ys)"
  by (induction xs arbitrary: s) (auto simp: bindE_def split: sum.splits)

lemma foldE_invariant:
  assumes "foldE f xs s = Inr s'" and "I s"
    and "\<And>x a b. x \<in> set xs \<Longrightarrow> I a \<Longrightarrow> f x a = Inr b \<Longrightarrow> I b"
  shows "I s'"
  using assms
proof (induction xs arbitrary: s)
  case Nil
  then show ?case by simp
next
  case (Cons x xs)
  from Cons.prems(1) obtain a where a: "f x s = Inr a" and r: "foldE f xs a = Inr s'"
    by (auto simp: bindE_eq_Inr)
  have "I a" using Cons.prems(2) a by (rule Cons.prems(3)[of x, simplified])
  show ?case
  proof (rule Cons.IH[OF r \<open>I a\<close>])
    fix y c d assume "y \<in> set xs" "I c" "f y c = Inr d"
    then show "I d" using Cons.prems(3)[of y c d] by simp
  qed
qed



subsection \<open>The legacy field\<close>

lemma migrated_field:
  "map_of kvs ''base_snapshot_id'' = Some f \<Longrightarrow> field (JObj kvs) ''base_snapshot_id'' = f"
  by (simp add: field_def)

lemma repair_workspace_migrated:
  assumes step: "repair_workspace L j st = Inr st'" and f: "truthy f"
    and mig: "migrated_config (disk st) c f"
  shows "migrated_config (disk st') c f"
  using step
proof (cases rule: repair_workspace_cases)
  case skip
  then show ?thesis using mig by simp
next
  case (repair s kvs m kvs' ch)
  let ?cj = "components s @ [''.fst'', ''config.json'']"
  have rt: "read_text (disk st) ?cj = Inr (Json (JObj kvs))"
    using repair(3) by (intro load_json_present) auto
  show ?thesis
  proof (cases "?cj = c")
    case True
    then have b: "map_of kvs ''base_snapshot_id'' = Some f"
      using mig repair(3) by (auto simp: migrated_config_def)
    then have t: "truthy (field (JObj kvs) ''base_snapshot_id'')"
      using f by (simp add: migrated_field)
    then have "m = (JObj kvs, False)" using repair(4) by (simp add: migrate_legacy_obj)
    then have "ch = False" using repair(5) t by (simp add: resolve_missing_base_obj)
    then show ?thesis using repair(6) mig by simp
  next
    case False
    then have "load_json (disk st') c = load_json (disk st) c"
      using repair(6) by (auto simp: load_json_overwrite[OF rt])
    then show ?thesis using mig by (simp add: migrated_config_def)
  qed
qed

lemma repair_workspace_legacy:
  assumes step: "repair_workspace L j st = Inr st'" and f: "truthy f"
    and leg: "legacy_config (disk st) c f"
  shows "legacy_config (disk st') c f \<or> migrated_config (disk st') c f"
  using step
proof (cases rule: repair_workspace_cases)
  case skip
  then show ?thesis using leg by simp
next
  case (repair s kvs m kvs' ch)
  let ?cj = "components s @ [''.fst'', ''config.json'']"
  have rt: "read_text (disk st) ?cj = Inr (Json (JObj kvs))"
    using repair(3) by (intro load_json_present) auto
  show ?thesis
  proof (cases "?cj = c")
    case True
    then have b: "\<not> truthy (field (JObj kvs) ''base_snapshot_id'')"
      and k: "field (JObj kvs) ''fork_snapshot_id'' = f"
      using leg repair(3) by (auto simp: legacy_config_def)
    let ?k1 = "AList.delete ''fork_snapshot_id'' (AList.update ''base_snapshot_id'' f kvs)"
    have m: "m = (JObj ?k1, True)"
      using repair(4) b k f by (simp add: migrate_legacy_obj)
    have t: "truthy (field (JObj ?k1) ''base_snapshot_id'')"
      using f by (simp add: field_delete field_update)
    have "kvs' = ?k1 \<and> ch" using repair(5) t unfolding m by (simp add: resolve_missing_base_obj)
    moreover have rt': "read_text (disk st) c = Inr (Json (JObj kvs))"
      using rt True by simp
    ultimately have "load_json (disk st') c = Inr (JObj ?k1)"
      using repair(6) True by (simp add: load_json_overwrite[OF rt'])
    moreover have "map_of ?k1 ''base_snapshot_id'' = Some f" "map_of ?k1 ''fork_snapshot_id'' = None"
      by (simp_all add: delete_conv' update_conv')
    ultimately show ?thesis by (auto simp: migrated_config_def)
  next
    case False
    then have "load_json (disk st') c = load_json (disk st) c"
      using repair(6) by (auto simp: load_json_overwrite[OF rt])
    then show ?thesis using leg by (simp add: legacy_config_def)
  qed
qed

lemma repair_workspace_own:
  assumes step: "repair_workspace L i st = Inr st'" and f: "truthy f"
    and path: "py_get (wlist st ! i) ''path'' = Inr (JStr s)" "s \<noteq> []"
    and leg: "legacy_config (disk st) (components s @ [''.fst'', ''config.json'']) f
              \<or> migrated_config (disk st) (components s @ [''.fst'', ''config.json'']) f"
  shows "migrated_config (disk st') (components s @ [''.fst'', ''config.json'']) f"
proof -
  let ?c = "components s @ [''.fst'', ''config.json'']"
  from leg show ?thesis
  proof
    assume mig: "migrated_config (disk st) ?c f"
    show ?thesis by (rule repair_workspace_migrated[OF step f mig])
  next
    assume l: "legacy_config (disk st) ?c f"
    then obtain kvs where kvs: "load_json (disk st) ?c = Inr (JObj kvs)"
      "\<not> truthy (field (JObj kvs) ''base_snapshot_id'')" "field (JObj kvs) ''fork_snapshot_id'' = f"
      by (auto simp: legacy_config_def)
    have rt: "read_text (disk st) ?c = Inr (Json (JObj kvs))"
      using kvs(1) by (intro load_json_present) auto
    let ?k1 = "AList.delete ''fork_snapshot_id'' (AList.update ''base_snapshot_id'' f kvs)"
    have m: "migrate_legacy (JObj kvs) = Inr (JObj ?k1, True)"
      using kvs f by (simp add: migrate_legacy_obj)
    have t: "truthy (field (JObj ?k1) ''base_snapshot_id'')"
      using f by (simp add: field_delete field_update)
    have r: "resolve_missing_base L (disk st) (components s) (JObj ?k1, True) = Inr (JObj ?k1, True)"
      using t by (simp add: resolve_missing_base_obj)
    have "repair_workspace L i st =
            Inr (fill_entry i (field (JObj ?k1) ''base_snapshot_id'')
                  (st\<lparr>disk := overwrite (disk st) ?c (Json (JObj ?k1)),
                      updated_configs := updated_configs st + 1\<rparr>))"
      using repair_workspace_obj[OF path kvs(1) m r] by simp
    then have "load_json (disk st') ?c = Inr (JObj ?k1)"
      using step by (auto simp: load_json_overwrite[OF rt])
    moreover have "map_of ?k1 ''base_snapshot_id'' = Some f" "map_of ?k1 ''fork_snapshot_id'' = None"
      by (simp_all add: delete_conv' update_conv')
    ultimately show ?thesis by (auto simp: migrated_config_def)
  qed
qed

text \<open>
  Claim C5. For every workspace whose local config has an empty or missing
  \<^verbatim>\<open>base_snapshot_id\<close> and a legacy \<^verbatim>\<open>fork_snapshot_id\<close> with a value, the config on disk
  after Phase A has that value as \<^verbatim>\<open>base_snapshot_id\<close> and no \<^verbatim>\<open>fork_snapshot_id\<close> field.
\<close>

theorem phase_A_migrates_legacy:
  assumes run: "phase_A L st = Inr st'" and i: "i < length (wlist st)"
    and path: "py_get (wlist st ! i) ''path'' = Inr (JStr s)" "s \<noteq> []"
    and cfg: "load_json (disk st) (components s @ [''.fst'', ''config.json'']) = Inr (JObj kvs)"
    and base: "\<not> truthy (field (JObj kvs) ''base_snapshot_id'')"
    and fork: "truthy (field (JObj kvs) ''fork_snapshot_id'')"
  shows "\<exists>kvs'. load_json (disk st') (components s @ [''.fst'', ''config.json'']) = Inr (JObj kvs')
           \<and> map_of kvs' ''base_snapshot_id'' = Some (field (JObj kvs) ''fork_snapshot_id'')
           \<and> map_of kvs' ''fork_snapshot_id'' = None"
proof -
  let ?c = "components s @ [''.fst'', ''config.json'']"
  let ?f = "field (JObj kvs) ''fork_snapshot_id''"
  let ?n = "length (wlist st)"
  have split: "[0..<?n] = [0..<i] @ i # [Suc i..<?n]"
    using i by (metis upt_conv_Cons upt_add_eq_append le0 le_add_diff_inverse less_imp_le_nat add_0)
  from run obtain sa sb where
    a: "foldE (repair_workspace L) [0..<i] st = Inr sa" and
    b: "repair_workspace L i sa = Inr sb" and
    c: "foldE (repair_workspace L) [Suc i..<?n] sb = Inr st'"
    unfolding phase_A_def split foldE_append by (auto simp: bindE_eq_Inr)
  let ?J = "\<lambda>x. wlist x ! i = wlist st ! i \<and> (legacy_config (disk x) ?c ?f \<or> migrated_config (disk x) ?c ?f)"
  have "?J st" using cfg base by (auto simp: legacy_config_def)
  have "?J sa"
  proof (rule foldE_invariant[OF a, of ?J])
    show "?J st" by fact
  next
    fix j x y assume j: "j \<in> set [0..<i]" and J: "?J x" and s: "repair_workspace L j x = Inr y"
    have "j \<noteq> i" using j by simp
    then have "wlist y ! i = wlist x ! i" using repair_workspace_wlist_other[OF s] by simp
    moreover have "legacy_config (disk y) ?c ?f \<or> migrated_config (disk y) ?c ?f"
      using J repair_workspace_legacy[OF s fork] repair_workspace_migrated[OF s fork] by blast
    ultimately show "?J y" using J by simp
  qed
  then have "migrated_config (disk sb) ?c ?f"
    using repair_workspace_own[OF b fork, of s] path by simp
  then have "migrated_config (disk st') ?c ?f"
  proof (rule foldE_invariant[OF c, of "\<lambda>x. migrated_config (disk x) ?c ?f"])
    fix j x y assume "migrated_config (disk x) ?c ?f" "repair_workspace L j x = Inr y"
    then show "migrated_config (disk y) ?c ?f" using repair_workspace_migrated fork by blast
  qed
  then show ?thesis by (simp add: migrated_config_def)
qed

theorem phase_A_migrates_legacy_witness:
  "\<exists>st'. phase_A demo_lib demo_legacy = Inr st'
     \<and> load_json (disk st') [''w'', ''.fst'', ''config.json'']
          = Inr (JObj [(''base_snapshot_id'', JStr ''abc'')])"
proof -
  have r: "map_sum id (\<lambda>x. ()) (phase_A demo_lib demo_legacy) = Inr ()" by code_simp
  then obtain st' where st': "phase_A demo_lib demo_legacy = Inr st'"
    by (cases "phase_A demo_lib demo_legacy") auto
  have i: "1 < length (wlist demo_legacy)" by code_simp
  have h1: "py_get (wlist demo_legacy ! 1) ''path'' = Inr (JStr ''/w'')" by code_simp
  have c: "components ''/w'' = [''w'']" by code_simp
  have h3: "load_json (disk demo_legacy) (components ''/w'' @ [''.fst'', ''config.json''])
              = Inr (JObj [(''fork_snapshot_id'', JStr ''abc'')])" by code_simp
  have h4: "\<not> truthy (field (JObj [(''fork_snapshot_id'', JStr ''abc'')]) ''base_snapshot_id'')" by code_simp
  have h5: "truthy (field (JObj [(''fork_snapshot_id'', JStr ''abc'')]) ''fork_snapshot_id'')" by code_simp
  have f: "field (JObj [(''fork_snapshot_id'', JStr ''abc'')]) ''fork_snapshot_id'' = JStr ''abc''" by code_simp
  have l: "map_sum id (\<lambda>x. load_json (disk x) [''w'', ''.fst'', ''config.json'']) (phase_A demo_lib demo_legacy)
            = Inr (Inr (JObj [(''base_snapshot_id'', JStr ''abc'')]))" by code_simp
  obtain kvs' where "load_json (disk st') [''w'', ''.fst'', ''config.json''] = Inr (JObj kvs')"
      "map_of kvs' ''base_snapshot_id'' = Some (JStr ''abc'')" "map_of kvs' ''fork_snapshot_id'' = None"
    using phase_A_migrates_legacy[OF st' i h1 _ h3 h4 h5] c f by auto
  moreover have "load_json (disk st') [''w'', ''.fst'', ''config.json''] = Inr (JObj [(''base_snapshot_id'', JStr ''abc'')])"
    using l st' by simp
  ultimately show ?thesis using st' by blast
qed

subsection \<open>Phase B, one project\<close>

lemma truthy_obj_field: "truthy (field (JObj kvs) k) \<Longrightarrow> truthy (JObj kvs)"
  by (rule truthy_field)

lemma repair_parent_obj:
  assumes "py_get pr ''project_id'' = Inr pid" "truthy pid"
    and "locate_parent_root (disk st) (wlist st) by_project pr pid = Inr (Some root)"
    and "load_json (disk st) (root @ [''fst.json'']) = Inr (JObj kvs)"
    and "\<not> truthy (field (JObj kvs) ''base_snapshot_id'')"
    and "choose_base L (disk st) (wlist st) by_id by_project pid (JObj kvs) = Inr choice"
  shows "repair_parent L by_id by_project pr st =
           (case choice of
              None \<Rightarrow> Inr st
            | Some (base_ws, base_id) \<Rightarrow>
                if truthy base_ws \<and> truthy base_id
                then bindE (py_get base_ws ''workspace_id'') (\<lambda>wid.
                       Inr (st\<lparr>disk := overwrite (disk st) (root @ [''fst.json''])
                                          (Json (JObj (AList.update ''base_workspace_id'' wid
                                                   (AList.update ''base_snapshot_id'' base_id kvs)))),
                               updated_parents := updated_parents st + 1\<rparr>))
                else Inr st)"
proof -
  have rt: "read_text (disk st) (root @ [''fst.json'']) = Inr (Json (JObj kvs))"
    using assms(4) by (intro load_json_present) auto
  show ?thesis
    using assms
    by (auto simp: repair_parent_def Let_def py_get_obj save_json_existing[OF rt]
        split: option.splits intro!: arg_cong2[where f=bindE] ext)
qed

lemma repair_parent_cases:
  assumes "repair_parent L by_id by_project pr st = Inr st'"
  obtains (skip) "st' = st"
    | (save) root kvs kvs' where
        "load_json (disk st) (root @ [''fst.json'']) = Inr (JObj kvs)"
        "\<not> truthy (field (JObj kvs) ''base_snapshot_id'')"
        "st' = st\<lparr>disk := overwrite (disk st) (root @ [''fst.json'']) (Json (JObj kvs')),
                  updated_parents := updated_parents st + 1\<rparr>"
proof -
  obtain pid where pid: "py_get pr ''project_id'' = Inr pid"
    using assms by (auto simp: repair_parent_def bindE_eq_Inr)
  show thesis
  proof (cases "truthy pid")
    case False
    then have "st' = st" using assms pid by (simp add: repair_parent_def)
    then show thesis by (rule skip)
  next
    case tp: True
    then obtain r where r: "locate_parent_root (disk st) (wlist st) by_project pr pid = Inr r"
      using assms pid by (auto simp: repair_parent_def bindE_eq_Inr)
    show thesis
    proof (cases r)
      case None
      then have "st' = st" using assms pid tp r by (simp add: repair_parent_def)
      then show thesis by (rule skip)
    next
      case (Some root)
      then obtain cfg where cfg: "load_json (disk st) (root @ [''fst.json'']) = Inr cfg"
        using assms pid tp r by (auto simp: repair_parent_def Let_def bindE_eq_Inr)
      show thesis
      proof (cases "cfg = JNull")
        case True
        then have "st' = st" using assms pid tp r Some cfg by (simp add: repair_parent_def Let_def)
        then show thesis by (rule skip)
      next
        case False
        then obtain b where b: "py_get cfg ''base_snapshot_id'' = Inr b"
          using assms pid tp r Some cfg by (auto simp: repair_parent_def Let_def bindE_eq_Inr)
        then obtain kvs where kvs: "cfg = JObj kvs" "b = field (JObj kvs) ''base_snapshot_id''"
          using py_get_Inr by blast
        show thesis
        proof (cases "truthy b")
          case True
          then have "st' = st"
            using assms pid tp r Some cfg False b by (simp add: repair_parent_def Let_def)
          then show thesis by (rule skip)
        next
          case nb: False
          then obtain choice where
            ch: "choose_base L (disk st) (wlist st) by_id by_project pid (JObj kvs) = Inr choice"
            using assms pid tp r Some cfg False b kvs
            by (auto simp: repair_parent_def Let_def bindE_eq_Inr)
          have eq: "repair_parent L by_id by_project pr st =
           (case choice of
              None \<Rightarrow> Inr st
            | Some (base_ws, base_id) \<Rightarrow>
                if truthy base_ws \<and> truthy base_id
                then bindE (py_get base_ws ''workspace_id'') (\<lambda>wid.
                       Inr (st\<lparr>disk := overwrite (disk st) (root @ [''fst.json''])
                                          (Json (JObj (AList.update ''base_workspace_id'' wid
                                                   (AList.update ''base_snapshot_id'' base_id kvs)))),
                               updated_parents := updated_parents st + 1\<rparr>))
                else Inr st)"
            using pid tp r Some cfg kvs nb ch by (intro repair_parent_obj) auto
          show thesis
          proof (cases choice)
            case None
            then have "st' = st" using assms eq by simp
            then show thesis by (rule skip)
          next
            case (Some wb)
            obtain bw bid where wb: "wb = (bw, bid)" by (cases wb)
            show thesis
            proof (cases "truthy bw \<and> truthy bid")
              case False
              then have "st' = st" using assms eq Some wb by auto
              then show thesis by (rule skip)
            next
              case True
              then obtain wid where
                "st' = st\<lparr>disk := overwrite (disk st) (root @ [''fst.json''])
                                          (Json (JObj (AList.update ''base_workspace_id'' wid
                                                   (AList.update ''base_snapshot_id'' bid kvs)))),
                               updated_parents := updated_parents st + 1\<rparr>"
                using assms eq Some wb by (auto simp: bindE_eq_Inr)
              then show thesis
                using cfg kvs nb by (intro save[of root kvs]) auto
            qed
          qed
        qed
      qed
    qed
  qed
qed

text \<open>
  Claim C6. A parent config that holds a \<^verbatim>\<open>base_snapshot_id\<close> with a value is the same
  after Phase B as before, and Phase B does not write it, whatever the workspaces and the
  projects of the index are.
\<close>

theorem phase_B_keeps_explicit_base:
  assumes run: "phase_B L by_id by_project projects st = Inr st'"
    and cfg: "load_json (disk st) c = Inr cfg"
    and base: "truthy (field cfg ''base_snapshot_id'')"
  shows "load_json (disk st') c = Inr cfg
       \<and> lookup (disk st') c = lookup (disk st) c
       \<and> (\<exists>ws. written (disk st') = written (disk st) @ ws \<and> c \<notin> set ws)"
proof -
  let ?I = "\<lambda>x. read_text (disk x) c = read_text (disk st) c
                \<and> lookup (disk x) c = lookup (disk st) c
                \<and> (\<exists>ws. written (disk x) = written (disk st) @ ws \<and> c \<notin> set ws)"
  have "?I st'"
  proof (rule foldE_invariant[OF run[unfolded phase_B_def], of ?I])
    show "?I st" by simp
  next
    fix pr x y assume I: "?I x" and s: "repair_parent L by_id by_project pr x = Inr y"
    from s show "?I y"
    proof (cases rule: repair_parent_cases)
      case skip
      then show ?thesis using I by simp
    next
      case (save root kvs kvs')
      have rt: "read_text (disk x) (root @ [''fst.json'']) = Inr (Json (JObj kvs))"
        using save(1) by (intro load_json_present) auto
      have ne: "root @ [''fst.json''] \<noteq> c"
      proof
        assume e: "root @ [''fst.json''] = c"
        then have "load_json (disk x) c = Inr (JObj kvs)" using save(1) by simp
        moreover have "load_json (disk x) c = load_json (disk st) c"
          using I by (simp add: load_json_def)
        ultimately have "cfg = JObj kvs" using cfg by simp
        then show False using base save(2) by simp
      qed
      obtain ws where ws: "written (disk x) = written (disk st) @ ws" "c \<notin> set ws"
        using I by blast
      have "written (disk y) = written (disk st) @ (ws @ [root @ [''fst.json'']])"
        using save(3) ws by simp
      moreover have "c \<notin> set (ws @ [root @ [''fst.json'']])" using ws ne by auto
      moreover have "read_text (disk y) c = read_text (disk st) c"
        using save(3) I ne by (simp add: read_text_overwrite[OF rt])
      moreover have "lookup (disk y) c = lookup (disk st) c"
        using save(3) I ne read_text_nonroot[OF rt] by (simp add: lookup_overwrite)
      ultimately show ?thesis by blast
    qed
  qed
  moreover have "load_json (disk st') c = load_json (disk st) c" if "read_text (disk st') c = read_text (disk st) c"
    using that by (simp add: load_json_def)
  ultimately show ?thesis using cfg by simp
qed

theorem phase_B_keeps_explicit_base_witness:
  "\<exists>st'. phase_B demo_lib demo_by_id demo_by_project demo_projects demo_explicit = Inr st'
     \<and> load_json (disk st') [''p'', ''fst.json''] = Inr (JObj [(''base_snapshot_id'', JStr ''x'')])
     \<and> written (disk st') = [[''q'', ''fst.json'']]"
proof -
  have "map_sum id (\<lambda>x. written (disk x))
          (phase_B demo_lib demo_by_id demo_by_project demo_projects demo_explicit)
        = Inr [[''q'', ''fst.json'']]" by code_simp
  then obtain st' where
    st': "phase_B demo_lib demo_by_id demo_by_project demo_projects demo_explicit = Inr st'"
    and w: "written (disk st') = [[''q'', ''fst.json'']]"
    by (cases "phase_B demo_lib demo_by_id demo_by_project demo_projects demo_explicit") auto
  have c: "load_json (disk demo_explicit) [''p'', ''fst.json''] = Inr (JObj [(''base_snapshot_id'', JStr ''x'')])"
    by code_simp
  have b: "truthy (field (JObj [(''base_snapshot_id'', JStr ''x'')]) ''base_snapshot_id'')"
    by code_simp
  show ?thesis
    using phase_B_keeps_explicit_base[OF st' c b] st' w by blast
qed

subsection \<open>The choice of the base workspace\<close>








text \<open>
  Claim C10. In Phase B, when the parent config names a \<^verbatim>\<open>base_workspace_id\<close> that is in
  the registry and the snapshot id of that workspace cannot be resolved (it records no
  \<^verbatim>\<open>base_snapshot_id\<close>, and it has no path or the earliest pick of its snapshots directory
  is absent), the parent config is left as it is: the other workspaces of the project are
  not scanned, whatever they would yield.
\<close>

theorem phase_B_named_workspace_unresolved:
  assumes "py_get pr ''project_id'' = Inr pid" and "truthy pid"
    and "locate_parent_root (disk st) (wlist st) by_project pr pid = Inr (Some root)"
    and "load_json (disk st) (root @ [''fst.json'']) = Inr (JObj kvs)"
    and "\<not> truthy (field (JObj kvs) ''base_snapshot_id'')"
    and "truthy (field (JObj kvs) ''base_workspace_id'')"
    and "workspace_by_id by_id (field (JObj kvs) ''base_workspace_id'') = Inr (Some k)"
    and "wlist st ! k = JObj w"
    and "\<not> truthy (field (JObj w) ''base_snapshot_id'')"
    and "\<not> truthy (field (JObj w) ''path'')
         \<or> (field (JObj w) ''path'' = JStr s
            \<and> pick_snapshot_id L (disk st) (components s @ [''.fst'', ''snapshots'']) ''earliest'' = Inr JNull)"
  shows "repair_parent L by_id by_project pr st = Inr st"
proof -
  have "\<exists>b. choose_base L (disk st) (wlist st) by_id by_project pid (JObj kvs) = Inr (Some (JObj w, b))
            \<and> \<not> truthy b"
    using assms(6-10) by (auto simp: choose_base_def py_get_obj Let_def)
  then obtain b where
    ch: "choose_base L (disk st) (wlist st) by_id by_project pid (JObj kvs) = Inr (Some (JObj w, b))"
    and b: "\<not> truthy b" by blast
  show ?thesis
    using repair_parent_obj[OF assms(1-5) ch] b by simp
qed

theorem phase_B_named_workspace_unresolved_witness:
  "repair_parent demo_lib demo_by_id demo_by_project (demo_projects ! 1) demo_named = Inr demo_named
   \<and> yields demo_lib (disk demo_named) (wlist demo_named ! 2) = Inr (JStr ''s3'')
   \<and> project_workspaces demo_by_project (JStr ''q'') = Inr [1, 2]"
proof -
  let ?q = "demo_projects ! 1"
  let ?cfg = "[(''base_workspace_id'', JStr ''w2'')]"
  let ?w = "[(''workspace_id'', JStr ''w2''), (''project_id'', JStr ''q''), (''path'', JStr ''/w2'')]"
  have q1: "py_get ?q ''project_id'' = Inr (JStr ''q'')" by code_simp
  have q2: "truthy (JStr ''q'')" by simp
  have q3: "locate_parent_root (disk demo_named) (wlist demo_named) demo_by_project ?q (JStr ''q'')
              = Inr (Some [''q''])" by code_simp
  have q4: "load_json (disk demo_named) ([''q''] @ [''fst.json'']) = Inr (JObj ?cfg)" by code_simp
  have q5: "\<not> truthy (field (JObj ?cfg) ''base_snapshot_id'')" by code_simp
  have q6: "truthy (field (JObj ?cfg) ''base_workspace_id'')" by code_simp
  have q7: "workspace_by_id demo_by_id (field (JObj ?cfg) ''base_workspace_id'') = Inr (Some 1)"
    by code_simp
  have q8: "wlist demo_named ! 1 = JObj ?w" by code_simp
  have q9: "\<not> truthy (field (JObj ?w) ''base_snapshot_id'')" by code_simp
  have q10: "\<not> truthy (field (JObj ?w) ''path'')
         \<or> (field (JObj ?w) ''path'' = JStr ''/w2''
            \<and> pick_snapshot_id demo_lib (disk demo_named) (components ''/w2'' @ [''.fst'', ''snapshots''])
                 ''earliest'' = Inr JNull)" by code_simp
  have y: "yields demo_lib (disk demo_named) (wlist demo_named ! 2) = Inr (JStr ''s3'')" by code_simp
  have p: "project_workspaces demo_by_project (JStr ''q'') = Inr [1, 2]" by code_simp
  show ?thesis
    using phase_B_named_workspace_unresolved[OF q1 q2 q3 q4 q5 q6 q7 q8 q9 q10] y p by blast
qed

section \<open>Running twice\<close>


subsection \<open>Readers after an overwrite\<close>








subsection \<open>Workspaces that Phase A leaves alone\<close>










lemma field_JNull [simp]: "field JNull k = JNull"
  by (simp add: field_def)

lemma last_config [simp]: "last (p @ [''.fst'', ''config.json'']) = ''config.json''"
  by simp



subsection \<open>A loop settles what it visits\<close>




subsection \<open>What Phase A keeps\<close>









subsection \<open>Projects that Phase B leaves alone\<close>




subsection \<open>What Phase B and Phase C keep\<close>









subsection \<open>A loop that changes nothing, and the counters\<close>



lemma reset_simps [simp]:
  "disk (reset x) = disk x" "wlist (reset x) = wlist x" "copied_bases (reset x) = copied_bases x"
  "updated_configs (reset x) = 0" "updated_index (reset x) = 0" "updated_parents (reset x) = 0"
  by (simp_all add: reset_def)





subsection \<open>The tables of a second run\<close>





lemma py_get_default_update_same:
  "py_get_default (JObj (AList.update k v kvs)) k d = Inr v"
  by (simp add: update_conv')

lemma py_get_default_update_other:
  "k' \<noteq> k \<Longrightarrow> py_get_default (JObj (AList.update k v kvs)) k' d = py_get_default (JObj kvs) k' d"
  by (simp add: update_conv')




end
